theory Spec2Isabelle
  imports Complex_Main
begin

section \<open>The incidents table (backend/database.py)\<close>

text \<open>
  A row of the table \<^verbatim>\<open>incidents\<close>. The column \<^verbatim>\<open>id\<close> is the integer primary key;
  \<^verbatim>\<open>resolved\<close> defaults to 0. The column \<^verbatim>\<open>confidence_score\<close> is a Float: a float is
  modelled by the rational number it denotes.
\<close>

record incident =
  incident_id :: int
  message :: string
  priority :: string
  source_service :: string
  confidence_score :: rat
  resolved :: int
  timestamp :: string

text \<open>
  The database as the code sees it: the committed rows of the table, in insertion order,
  and the sequence the primary key is drawn from.
\<close>

record database =
  rows :: "incident list"
  id_seq :: int

text \<open>The primary key: ids are pairwise different and were all drawn from the sequence.\<close>

definition primary_key :: "database \<Rightarrow> bool" where
  "primary_key db =
     (distinct (map incident_id (rows db)) \<and> list_all (\<lambda>r. incident_id r < id_seq db) (rows db))"

section \<open>Values of the program\<close>

text \<open>
  Python dictionaries with string keys are association lists in insertion order; the
  values that occur in them are integers, strings, floats and dictionaries.
\<close>

datatype json = JInt int | JStr string | JFloat rat | JObj "(string \<times> json) list"

text \<open>Exceptions raised by the libraries and the collaborators.\<close>

datatype exn = ValueError | Raised string

text \<open>
  \<^verbatim>\<open>round(x, ndigits)\<close> of a float: the decimal with \<open>ndigits\<close> places nearest to the exact
  value of \<open>x\<close>, a tie going to the even neighbour. The conversion of that decimal back to
  the nearest float is not modelled.
\<close>

definition round_half_even :: "rat \<Rightarrow> int" where
  "round_half_even x =
     (let f = \<lfloor>x\<rfloor>; d = x - of_int f
      in if d < 1 / 2 then f
         else if 1 / 2 < d then f + 1
         else if even f then f else f + 1)"

definition py_round :: "rat \<Rightarrow> nat \<Rightarrow> rat" where
  "py_round x ndigits = of_int (round_half_even (x * 10 ^ ndigits)) / 10 ^ ndigits"

text \<open>\<^verbatim>\<open>max(probs)\<close>: raises ValueError on an empty sequence.\<close>

definition py_max :: "rat list \<Rightarrow> exn + rat" where
  "py_max ps = (case ps of [] \<Rightarrow> Inl ValueError | p # qs \<Rightarrow> Inr (fold max qs p))"

text \<open>\<^verbatim>\<open>list.remove(x)\<close>: removes the first occurrence, raises ValueError when there is none.\<close>

definition list_remove :: "'a list \<Rightarrow> 'a \<Rightarrow> exn + 'a list" where
  "list_remove xs x = (if x \<in> set xs then Inr (remove1 x xs) else Inl ValueError)"

section \<open>Observable effects\<close>

text \<open>A WebSocket object is identified by a number.\<close>

type_synonym websocket = nat

text \<open>
  The calls the program makes on its collaborators, in the order it makes them.
  \<open>SendText c m ok\<close> is the call \<^verbatim>\<open>connection.send_text(m)\<close> on \<open>c\<close>, which returned
  (\<open>ok\<close>) or raised; \<open>Remove c\<close> is \<^verbatim>\<open>active_connections.remove(c)\<close>; \<open>RedisSet m ok\<close> is
  \<^verbatim>\<open>r.set("latest_incident", m)\<close>.
\<close>

datatype event =
    DbAdd | DbCommit | DbRefresh | DbRollback | DbClose
  | RedisSet string bool
  | SendText websocket string bool
  | Remove websocket

section \<open>ConnectionManager (backend/main.py)\<close>

text \<open>
  The manager is its list of live websockets. \<^verbatim>\<open>connect\<close> is the append that follows
  \<^verbatim>\<open>websocket.accept()\<close>; the lines written to the logger are left out everywhere.
\<close>

record connection_manager =
  active_connections :: "websocket list"

definition connect :: "connection_manager \<Rightarrow> websocket \<Rightarrow> connection_manager" where
  "connect m websocket = m\<lparr>active_connections := active_connections m @ [websocket]\<rparr>"

definition disconnect ::
  "connection_manager \<Rightarrow> websocket \<Rightarrow> exn + connection_manager \<times> event list" where
  "disconnect m websocket =
     (if websocket \<in> set (active_connections m)
      then (case list_remove (active_connections m) websocket of
              Inl e \<Rightarrow> Inl e
            | Inr cs \<Rightarrow> Inr (m\<lparr>active_connections := cs\<rparr>, [Remove websocket]))
      else Inr (m, []))"

text \<open>
  The second loop of \<^verbatim>\<open>broadcast\<close>: \<^verbatim>\<open>self.disconnect(conn)\<close> for every connection the
  first loop collected. It has no await, so no other task runs during it.
\<close>


fun disconnect_each ::
  "connection_manager \<Rightarrow> websocket list \<Rightarrow> event list
     \<Rightarrow> exn + connection_manager \<times> event list" where
  "disconnect_each m [] evs = Inr (m, evs)"
| "disconnect_each m (conn # cs) evs =
     (case disconnect m conn of
        Inl e \<Rightarrow> Inl e
      | Inr (m', evs') \<Rightarrow> disconnect_each m' cs (evs @ evs'))"

subsection \<open>The first loop of broadcast\<close>

text \<open>
  \<^verbatim>\<open>for connection in self.active_connections\<close> walks the list object itself by index: each
  step compares the index with the current length and reads the element there. At
  \<^verbatim>\<open>await connection.send_text(message)\<close> other tasks may run; those that touch the manager
  are the endpoint's \<^verbatim>\<open>manager.connect\<close> and \<^verbatim>\<open>manager.disconnect\<close>. A schedule gives, for
  each step of the loop, the calls made by other tasks during that step's await; the empty
  schedule is a broadcast during which no other task touches the manager. Every exception
  of \<^verbatim>\<open>send_text\<close> is caught by the bare \<^verbatim>\<open>except\<close> and the connection appended to
  \<^verbatim>\<open>disconnected\<close>; \<open>send_ok c\<close> tells whether sending to \<open>c\<close> returns.
\<close>

datatype task_call = Connect websocket | Disconnect websocket

fun run_call :: "connection_manager \<Rightarrow> task_call \<Rightarrow> connection_manager" where
  "run_call m (Connect c) = connect m c"
| "run_call m (Disconnect c) =
     (case disconnect m c of Inl e \<Rightarrow> m | Inr (m', evs) \<Rightarrow> m')"

definition run_calls :: "connection_manager \<Rightarrow> task_call list \<Rightarrow> connection_manager" where
  "run_calls m calls = foldl run_call m calls"

fun connects :: "task_call list \<Rightarrow> nat" where
  "connects [] = 0"
| "connects (Connect c # calls) = Suc (connects calls)"
| "connects (Disconnect c # calls) = connects calls"

function send_each_live ::
  "(websocket \<Rightarrow> bool) \<Rightarrow> string \<Rightarrow> task_call list list \<Rightarrow> nat \<Rightarrow> connection_manager
     \<Rightarrow> websocket list \<Rightarrow> event list \<Rightarrow> connection_manager \<times> websocket list \<times> event list" where
  "send_each_live send_ok msg schedule i m disconnected evs =
     (if i < length (active_connections m)
      then
        (let connection = active_connections m ! i;
             m' = run_calls m (case schedule of [] \<Rightarrow> [] | calls # rest \<Rightarrow> calls);
             schedule' = (case schedule of [] \<Rightarrow> [] | calls # rest \<Rightarrow> rest)
         in if send_ok connection
            then send_each_live send_ok msg schedule' (Suc i) m' disconnected
                   (evs @ [SendText connection msg True])
            else send_each_live send_ok msg schedule' (Suc i) m' (disconnected @ [connection])
                   (evs @ [SendText connection msg False]))
      else (m, disconnected, evs))"
  by pat_completeness auto

text \<open>
  The walk ends: the list grows only by the connects of the schedule, and each step
  uses up its entry of the schedule.
\<close>

termination send_each_live
proof -
  have one: "length (active_connections (run_call m call))
      \<le> length (active_connections m) + connects [call]" for m call
    by (cases call) (simp_all add: connect_def disconnect_def list_remove_def length_remove1)
  have many: "length (active_connections (foldl run_call m calls))
      \<le> length (active_connections m) + connects calls" for m calls
  proof (induction calls arbitrary: m)
    case Nil
    show ?case by simp
  next
    case (Cons call calls)
    have "length (active_connections (foldl run_call (run_call m call) calls))
            \<le> length (active_connections (run_call m call)) + connects calls"
      by (rule Cons.IH)
    also have "\<dots> \<le> length (active_connections m) + connects [call] + connects calls"
      using one [of m call] by simp
    also have "\<dots> = length (active_connections m) + connects (call # calls)"
      by (cases call) simp_all
    finally show ?case by simp
  qed
  have step: "length (active_connections
        (run_calls m (case schedule of [] \<Rightarrow> [] | calls # rest \<Rightarrow> calls)))
      + sum_list (map connects (case schedule of [] \<Rightarrow> [] | calls # rest \<Rightarrow> rest))
      \<le> length (active_connections m) + sum_list (map connects schedule)" for m schedule
    using many [of m "case schedule of [] \<Rightarrow> [] | calls # rest \<Rightarrow> calls"]
    by (cases schedule) (simp_all add: run_calls_def)
  show ?thesis
  proof (relation "measure (\<lambda>(send_ok, msg, schedule, i, m, disconnected, evs).
            length (active_connections m) + sum_list (map connects schedule) - i)")
    show "wf (measure (\<lambda>(send_ok, msg, schedule, i, m, disconnected, evs).
            length (active_connections m) + sum_list (map connects schedule) - i))"
      by simp
  next
    fix send_ok :: "websocket \<Rightarrow> bool" and msg :: string
      and schedule :: "task_call list list" and i :: nat and m :: connection_manager
      and disconnected :: "websocket list" and evs :: "event list" and x xa xb
    assume "i < length (active_connections m)"
      and "xa = run_calls m (case schedule of [] \<Rightarrow> [] | calls # rest \<Rightarrow> calls)"
      and "xb = (case schedule of [] \<Rightarrow> [] | calls # rest \<Rightarrow> rest)"
    then show "((send_ok, msg, xb, Suc i, xa, disconnected, evs @ [SendText x msg True]),
                (send_ok, msg, schedule, i, m, disconnected, evs))
               \<in> measure (\<lambda>(send_ok, msg, schedule, i, m, disconnected, evs).
                    length (active_connections m) + sum_list (map connects schedule) - i)"
      using step [of m schedule] by simp
  next
    fix send_ok :: "websocket \<Rightarrow> bool" and msg :: string
      and schedule :: "task_call list list" and i :: nat and m :: connection_manager
      and disconnected :: "websocket list" and evs :: "event list" and x xa xb
    assume "i < length (active_connections m)"
      and "xa = run_calls m (case schedule of [] \<Rightarrow> [] | calls # rest \<Rightarrow> calls)"
      and "xb = (case schedule of [] \<Rightarrow> [] | calls # rest \<Rightarrow> rest)"
    then show "((send_ok, msg, xb, Suc i, xa, disconnected @ [x],
                 evs @ [SendText x msg False]),
                (send_ok, msg, schedule, i, m, disconnected, evs))
               \<in> measure (\<lambda>(send_ok, msg, schedule, i, m, disconnected, evs).
                    length (active_connections m) + sum_list (map connects schedule) - i)"
      using step [of m schedule] by simp
  qed
qed

declare send_each_live.simps [simp del]

text \<open>\<^verbatim>\<open>broadcast\<close>: the first loop under the schedule, then the second loop.\<close>

definition broadcast_live ::
  "(websocket \<Rightarrow> bool) \<Rightarrow> task_call list list \<Rightarrow> connection_manager \<Rightarrow> string
     \<Rightarrow> exn + connection_manager \<times> event list" where
  "broadcast_live send_ok schedule m msg =
     (case send_each_live send_ok msg schedule 0 m [] [] of
        (m', disconnected, evs) \<Rightarrow> disconnect_each m' disconnected evs)"

section \<open>The collaborators of a request\<close>

text \<open>
  What the handler cannot decide itself is given to it: the pickled vectorizer and model
  (\<open>predict_proba\<close> and \<open>predict\<close> stand for \<^verbatim>\<open>vectorizer.transform\<close> followed by the
  model's method, row 0, \<open>Inl\<close> an exception), the draw of \<^verbatim>\<open>random.choice\<close>, the clock,
  how the database session behaves, the Redis handle \<^verbatim>\<open>r\<close>, \<^verbatim>\<open>json.dumps\<close>, which
  sockets accept a text, and what other tasks do to the manager while the handler awaits
  its broadcast (the handler's only await).
\<close>

text \<open>
  The session of a request: the commit raises (\<open>CommitRaises\<close>), the commit returns and
  the refresh raises (\<open>RefreshRaises\<close>), or both return (\<open>Committed\<close>).
\<close>

datatype db_outcome = CommitRaises | RefreshRaises | Committed

text \<open>
  The handle \<^verbatim>\<open>r\<close>: None (\<open>NoRedis\<close>), a client whose \<^verbatim>\<open>set\<close> returns (\<open>RedisUp\<close>) or
  a client whose \<^verbatim>\<open>set\<close> raises (\<open>RedisDown\<close>).
\<close>

datatype redis_client = NoRedis | RedisUp | RedisDown

record env =
  predict_proba :: "string \<Rightarrow> exn + rat list"
  predict :: "string \<Rightarrow> exn + string"
  random_choice :: nat
  utcnow :: string
  session :: db_outcome
  r :: redis_client
  json_dumps :: "json \<Rightarrow> string"
  send_ok :: "websocket \<Rightarrow> bool"
  other_tasks :: "task_call list list"

record world =
  db :: database
  latest_incident :: "string option"
  manager :: connection_manager
  trace :: "event list"

datatype failure = HTTPException (status_code: nat) (detail: string) | Unhandled exn

section \<open>POST /api/v1/predict (backend/main.py)\<close>

definition ml_prediction :: "env \<Rightarrow> string \<Rightarrow> exn + string \<times> rat" where
  "ml_prediction e text =
     (case predict_proba e text of
        Inl x \<Rightarrow> Inl x
      | Inr probs \<Rightarrow>
          (case predict e text of
             Inl x \<Rightarrow> Inl x
           | Inr prediction \<Rightarrow>
               (case py_max probs of
                  Inl x \<Rightarrow> Inl x
                | Inr confidence \<Rightarrow> Inr (prediction, confidence))))"

definition services :: "string list" where
  "services = [''Auth-Service'', ''Payment-Gateway'', ''Database-Cluster'', ''User-Profile-API'']"

text \<open>\<^verbatim>\<open>random.choice(seq)\<close> of a non-empty sequence, the draw given.\<close>

definition choice :: "nat \<Rightarrow> 'a list \<Rightarrow> 'a" where
  "choice draw xs = xs ! (draw mod length xs)"

definition Incident :: "string \<Rightarrow> string \<Rightarrow> string \<Rightarrow> string \<Rightarrow> rat \<Rightarrow> int \<Rightarrow> incident" where
  "Incident msg prio ts src conf new_id =
     \<lparr>incident_id = new_id, message = msg, priority = prio, source_service = src,
      confidence_score = conf, resolved = 0, timestamp = ts\<rparr>"

text \<open>
  \<^verbatim>\<open>db.add\<close>, \<^verbatim>\<open>db.commit\<close>, \<^verbatim>\<open>db.refresh\<close>. A commit that raises leaves the table as it
  was; a commit that returns has appended the row under the next id of the sequence, also
  when the refresh after it raises.
\<close>

definition insert_row :: "database \<Rightarrow> (int \<Rightarrow> incident) \<Rightarrow> database" where
  "insert_row d new_incident =
     d\<lparr>rows := rows d @ [new_incident (id_seq d)], id_seq := id_seq d + 1\<rparr>"

definition add_commit_refresh ::
  "db_outcome \<Rightarrow> database \<Rightarrow> (int \<Rightarrow> incident) \<Rightarrow> (exn + incident) \<times> database \<times> event list" where
  "add_commit_refresh outcome d new_incident =
     (case outcome of
        CommitRaises \<Rightarrow> (Inl (Raised ''commit''), d, [DbAdd, DbCommit])
      | RefreshRaises \<Rightarrow>
          (Inl (Raised ''refresh''), insert_row d new_incident, [DbAdd, DbCommit, DbRefresh])
      | Committed \<Rightarrow>
          (Inr (new_incident (id_seq d)), insert_row d new_incident,
           [DbAdd, DbCommit, DbRefresh]))"

definition response_data ::
  "incident \<Rightarrow> string \<Rightarrow> rat \<Rightarrow> string \<Rightarrow> string \<Rightarrow> (string \<times> json) list" where
  "response_data new_incident prediction confidence source ts =
     [(''id'', JInt (incident_id new_incident)),
      (''message'', JStr (message new_incident)),
      (''priority'', JStr prediction),
      (''confidence'', JFloat (py_round confidence 2)),
      (''source'', JStr source),
      (''timestamp'', JStr ts)]"

text \<open>The optional cache: nothing when \<^verbatim>\<open>r\<close> is None, a swallowed exception when the set raises.\<close>

definition cache_latest ::
  "redis_client \<Rightarrow> string \<Rightarrow> string option \<Rightarrow> string option \<times> event list" where
  "cache_latest client payload slot =
     (case client of
        NoRedis \<Rightarrow> (slot, [])
      | RedisUp \<Rightarrow> (Some payload, [RedisSet payload True])
      | RedisDown \<Rightarrow> (slot, [RedisSet payload False]))"

definition predict_log :: "env \<Rightarrow> string \<Rightarrow> world \<Rightarrow> (failure + json) \<times> world" where
  "predict_log e log_message w =
     (case ml_prediction e log_message of
        Inl x \<Rightarrow> (Inl (HTTPException 500 ''Prediction failed''), w)
      | Inr (prediction, confidence) \<Rightarrow>
          (let source = choice (random_choice e) services;
               ts = utcnow e
           in case add_commit_refresh (session e) (db w)
                     (Incident log_message prediction ts source confidence) of
                (Inl x, d, evs) \<Rightarrow>
                  (Inl (HTTPException 500 ''Database error''),
                   w\<lparr>db := d, trace := trace w @ evs @ [DbRollback, DbClose]\<rparr>)
              | (Inr new_incident, d, evs) \<Rightarrow>
                  (let data = response_data new_incident prediction confidence source ts;
                       w1 = w\<lparr>db := d, trace := trace w @ evs @ [DbClose]\<rparr>;
                       cached = cache_latest (r e) (json_dumps e (JObj data)) (latest_incident w1);
                       w2 = w1\<lparr>latest_incident := fst cached, trace := trace w1 @ snd cached\<rparr>
                   in case broadcast_live (send_ok e) (other_tasks e) (manager w2)
                             (json_dumps e (JObj data)) of
                        Inl x \<Rightarrow> (Inl (Unhandled x), w2)
                      | Inr (m, sent) \<Rightarrow>
                          (Inr (JObj [(''status'', JStr ''success''), (''data'', JObj data)]),
                           w2\<lparr>manager := m, trace := trace w2 @ sent\<rparr>))))"

text \<open>The row a request builds, and the dictionary it answers with, as functions of the id.\<close>

abbreviation new_row :: "env \<Rightarrow> string \<Rightarrow> string \<Rightarrow> rat \<Rightarrow> int \<Rightarrow> incident" where
  "new_row e msg prediction confidence \<equiv>
     Incident msg prediction (utcnow e) (choice (random_choice e) services) confidence"

abbreviation new_data :: "env \<Rightarrow> string \<Rightarrow> string \<Rightarrow> rat \<Rightarrow> int \<Rightarrow> (string \<times> json) list" where
  "new_data e msg prediction confidence new_id \<equiv>
     response_data (new_row e msg prediction confidence new_id) prediction confidence
       (choice (random_choice e) services) (utcnow e)"

section \<open>GET /api/v1/logs (backend/main.py)\<close>

definition log_dict :: "incident \<Rightarrow> (string \<times> json) list" where
  "log_dict row =
     [(''id'', JInt (incident_id row)),
      (''message'', JStr (message row)),
      (''priority'', JStr (priority row)),
      (''timestamp'', JStr (timestamp row)),
      (''source'', JStr (source_service row)),
      (''confidence'', JFloat (confidence_score row))]"

text \<open>\<^verbatim>\<open>query(Incident).order_by(Incident.id.desc()).limit(50).all()\<close>\<close>

definition query_logs :: "database \<Rightarrow> incident list" where
  "query_logs d = take 50 (rev (sort_key incident_id (rows d)))"

text \<open>The handler has no parameter; \<open>query_ok\<close> tells whether the query returns or raises.\<close>

definition get_logs :: "bool \<Rightarrow> database \<Rightarrow> failure + (string \<times> json) list list" where
  "get_logs query_ok d =
     (if query_ok then Inr (map log_dict (query_logs d))
      else Inl (HTTPException 500 ''Failed to fetch logs''))"

section \<open>What broadcast computes\<close>

lemma disconnect_present:
  "c \<in> set (active_connections m) \<Longrightarrow>
   disconnect m c = Inr (m\<lparr>active_connections := remove1 c (active_connections m)\<rparr>, [Remove c])"
  by (simp add: disconnect_def list_remove_def)

lemma disconnect_absent:
  "c \<notin> set (active_connections m) \<Longrightarrow> disconnect m c = Inr (m, [])"
  by (simp add: disconnect_def)

text \<open>The second loop never raises: each removal is guarded by the membership test.\<close>

lemma disconnect_each_returns: "\<exists>m' evs'. disconnect_each m cs evs = Inr (m', evs')"
proof (induction cs arbitrary: m evs)
  case Nil
  show ?case by simp
next
  case (Cons c cs)
  show ?case
  proof (cases "c \<in> set (active_connections m)")
    case True
    with Cons.IH show ?thesis by (simp add: disconnect_present)
  next
    case False
    with Cons.IH show ?thesis by (simp add: disconnect_absent)
  qed
qed

lemma broadcast_live_returns: "\<exists>m' evs. broadcast_live ok schedule m msg = Inr (m', evs)"
  by (simp add: broadcast_live_def disconnect_each_returns split: prod.split)

text \<open>
  The second loop on the connections the first loop collected: \<open>ys\<close> are the connections
  already passed that stay, \<open>xs\<close> those still to be looked at.
\<close>

lemma disconnect_each_failed:
  "list_all ok ys \<Longrightarrow>
   disconnect_each (m\<lparr>active_connections := ys @ xs\<rparr>) (filter (\<lambda>c. \<not> ok c) xs) evs =
     Inr (m\<lparr>active_connections := ys @ filter ok xs\<rparr>,
          evs @ map Remove (filter (\<lambda>c. \<not> ok c) xs))"
proof (induction xs arbitrary: ys evs)
  case Nil
  show ?case by simp
next
  case (Cons x xs)
  show ?case
  proof (cases "ok x")
    case True
    with Cons.prems have "list_all ok (ys @ [x])" by simp
    from Cons.IH [OF this, of evs] True show ?thesis by simp
  next
    case False
    with Cons.prems have "x \<notin> set ys" by (auto simp: list_all_iff)
    then have rm: "remove1 x (ys @ x # xs) = ys @ xs" by (simp add: remove1_append)
    from Cons.IH [OF Cons.prems, of "evs @ [Remove x]"] False rm show ?thesis
      by (simp add: disconnect_present)
  qed
qed

text \<open>With no other task running, the walk by index passes every element once, in order.\<close>

lemma send_each_live_alone:
  "send_each_live ok msg [] i m disconnected evs =
     (m, disconnected @ filter (\<lambda>c. \<not> ok c) (drop i (active_connections m)),
      evs @ map (\<lambda>c. SendText c msg (ok c)) (drop i (active_connections m)))"
proof (induction "length (active_connections m) - i" arbitrary: i disconnected evs)
  case 0
  then show ?case by (subst send_each_live.simps) simp
next
  case (Suc n)
  let ?c = "active_connections m ! i"
  from Suc.hyps(2) have lt: "i < length (active_connections m)" by simp
  from Suc.hyps(2) have n: "n = length (active_connections m) - Suc i" by simp
  have dr: "drop i (active_connections m) = ?c # drop (Suc i) (active_connections m)"
    using lt by (simp add: Cons_nth_drop_Suc)
  have step: "send_each_live ok msg [] i m disconnected evs =
      (if ok ?c
       then send_each_live ok msg [] (Suc i) m disconnected (evs @ [SendText ?c msg True])
       else send_each_live ok msg [] (Suc i) m (disconnected @ [?c])
              (evs @ [SendText ?c msg False]))"
    using lt by (subst send_each_live.simps) (simp add: run_calls_def Let_def)
  show ?case
    unfolding step dr by (simp add: Suc.hyps(1) [OF n])
qed

lemma broadcast_live_alone:
  "broadcast_live ok [] m msg =
     Inr (m\<lparr>active_connections := filter ok (active_connections m)\<rparr>,
          map (\<lambda>c. SendText c msg (ok c)) (active_connections m)
            @ map Remove (filter (\<lambda>c. \<not> ok c) (active_connections m)))"
  using disconnect_each_failed [where ok = ok and ys = "[]" and m = m
      and xs = "active_connections m"
      and evs = "map (\<lambda>c. SendText c msg (ok c)) (active_connections m)"]
  by (simp add: broadcast_live_def send_each_live_alone)

text \<open>Under any schedule, every text the broadcast sends is the message it was given.\<close>

lemma send_each_live_texts:
  assumes "\<forall>c p b. SendText c p b \<in> set evs \<longrightarrow> p = msg"
  shows "\<forall>c p b. SendText c p b \<in> set (snd (snd (send_each_live ok msg schedule i m disconnected evs)))
           \<longrightarrow> p = msg"
  using assms
proof (induction schedule arbitrary: i m disconnected evs)
  case Nil
  then show ?case by (auto simp: send_each_live_alone)
next
  case (Cons calls rest)
  show ?case
  proof (cases "i < length (active_connections m)")
    case False
    then have "send_each_live ok msg (calls # rest) i m disconnected evs = (m, disconnected, evs)"
      by (subst send_each_live.simps) simp
    with Cons.prems show ?thesis by simp
  next
    case True
    let ?c = "active_connections m ! i"
    let ?d = "if ok ?c then disconnected else disconnected @ [?c]"
    let ?evs = "evs @ [SendText ?c msg (ok ?c)]"
    have step: "send_each_live ok msg (calls # rest) i m disconnected evs
        = send_each_live ok msg rest (Suc i) (run_calls m calls) ?d ?evs"
      using True by (subst send_each_live.simps) (simp add: Let_def)
    have "\<forall>c p b. SendText c p b \<in> set ?evs \<longrightarrow> p = msg"
      using Cons.prems by auto
    from Cons.IH [OF this] show ?thesis by (simp only: step)
  qed
qed

lemma disconnect_each_texts:
  assumes "disconnect_each m cs evs = Inr (m', evs')"
    and "\<forall>c p b. SendText c p b \<in> set evs \<longrightarrow> p = msg"
  shows "\<forall>c p b. SendText c p b \<in> set evs' \<longrightarrow> p = msg"
  using assms
proof (induction cs arbitrary: m evs)
  case Nil
  then show ?case by simp
next
  case (Cons c cs)
  show ?case
  proof (cases "c \<in> set (active_connections m)")
    case True
    with Cons.prems(1) have "disconnect_each
        (m\<lparr>active_connections := remove1 c (active_connections m)\<rparr>) cs (evs @ [Remove c])
          = Inr (m', evs')"
      by (simp add: disconnect_present)
    moreover have "\<forall>a p b. SendText a p b \<in> set (evs @ [Remove c]) \<longrightarrow> p = msg"
      using Cons.prems(2) by simp
    ultimately show ?thesis by (rule Cons.IH)
  next
    case False
    with Cons.prems(1) have "disconnect_each m cs evs = Inr (m', evs')"
      by (simp add: disconnect_absent)
    then show ?thesis using Cons.prems(2) by (rule Cons.IH)
  qed
qed

lemma broadcast_live_texts:
  assumes "broadcast_live ok schedule m msg = Inr (m', evs)"
  shows "\<forall>c p b. SendText c p b \<in> set evs \<longrightarrow> p = msg"
proof -
  obtain m1 d1 evs1 where run: "send_each_live ok msg schedule 0 m [] [] = (m1, d1, evs1)"
    by (cases "send_each_live ok msg schedule 0 m [] []") auto
  have "\<forall>c p b. SendText c p b \<in> set evs1 \<longrightarrow> p = msg"
    using send_each_live_texts [of "[]" msg ok schedule 0 m "[]"] by (simp add: run)
  moreover have "disconnect_each m1 d1 evs1 = Inr (m', evs)"
    using assms by (simp add: broadcast_live_def run)
  ultimately show ?thesis by (rule disconnect_each_texts [rotated])
qed

section \<open>What the two handlers compute\<close>

lemma predict_log_prediction_failed:
  "ml_prediction e msg = Inl x \<Longrightarrow>
   predict_log e msg w = (Inl (HTTPException 500 ''Prediction failed''), w)"
  by (simp add: predict_log_def)

lemma predict_log_commit_raises:
  "ml_prediction e msg = Inr (prediction, confidence) \<Longrightarrow> session e = CommitRaises \<Longrightarrow>
   predict_log e msg w =
     (Inl (HTTPException 500 ''Database error''),
      w\<lparr>trace := trace w @ [DbAdd, DbCommit, DbRollback, DbClose]\<rparr>)"
  by (simp add: predict_log_def add_commit_refresh_def Let_def)

lemma predict_log_refresh_raises:
  "ml_prediction e msg = Inr (prediction, confidence) \<Longrightarrow> session e = RefreshRaises \<Longrightarrow>
   predict_log e msg w =
     (Inl (HTTPException 500 ''Database error''),
      w\<lparr>db := insert_row (db w) (new_row e msg prediction confidence),
        trace := trace w @ [DbAdd, DbCommit, DbRefresh, DbRollback, DbClose]\<rparr>)"
  by (simp add: predict_log_def add_commit_refresh_def Let_def)

text \<open>
  A committed submission: the answer and the state, in terms of what the broadcast returns.
\<close>

lemma predict_log_committed:
  assumes "ml_prediction e msg = Inr (prediction, confidence)" and "session e = Committed"
    and "broadcast_live (send_ok e) (other_tasks e) (manager w)
           (json_dumps e (JObj (new_data e msg prediction confidence (id_seq (db w)))))
         = Inr (m, sent)"
  shows "predict_log e msg w =
     (Inr (JObj [(''status'', JStr ''success''),
                 (''data'', JObj (new_data e msg prediction confidence (id_seq (db w))))]),
      w\<lparr>db := insert_row (db w) (new_row e msg prediction confidence),
        latest_incident :=
          fst (cache_latest (r e)
                 (json_dumps e (JObj (new_data e msg prediction confidence (id_seq (db w)))))
                 (latest_incident w)),
        manager := m,
        trace := trace w @ [DbAdd, DbCommit, DbRefresh, DbClose]
          @ snd (cache_latest (r e)
                 (json_dumps e (JObj (new_data e msg prediction confidence (id_seq (db w)))))
                 (latest_incident w))
          @ sent\<rparr>)"
  using assms
  by (simp add: predict_log_def add_commit_refresh_def Let_def)


lemma incident_id_Incident: "incident_id (Incident msg prio ts src conf n) = n"
  by (simp add: Incident_def)






lemma insort_key_snoc:
  "f x \<le> f y \<Longrightarrow> insort_key f x (zs @ [y]) = insort_key f x zs @ [y]"
  by (induction zs) simp_all

lemma sort_key_snoc:
  "\<forall>x\<in>set xs. f x \<le> f y \<Longrightarrow> sort_key f (xs @ [y]) = sort_key f xs @ [y]"
  by (induction xs) (simp_all add: insort_key_snoc)

text \<open>A row inserted under the next id of the sequence is the first one the query returns.\<close>

lemma query_logs_insert_row:
  assumes "primary_key d" and "\<And>n. incident_id (f n) = n"
  shows "query_logs (insert_row d f) = f (id_seq d) # take 49 (query_logs d)"
proof -
  have "\<forall>x\<in>set (rows d). incident_id x \<le> incident_id (f (id_seq d))"
    using assms by (auto simp: primary_key_def list_all_iff)
  then have "sort_key incident_id (rows d @ [f (id_seq d)])
               = sort_key incident_id (rows d) @ [f (id_seq d)]"
    by (rule sort_key_snoc)
  then show ?thesis
    by (simp add: query_logs_def insert_row_def take_Cons')
qed

lemma primary_key_insert_row:
  assumes "primary_key d" and "\<And>n. incident_id (f n) = n"
  shows "primary_key (insert_row d f)"
  using assms by (auto simp: primary_key_def insert_row_def list_all_iff)


section \<open>The subscriber registry\<close>


text \<open>
  C8. Unregistering is idempotent. \<^verbatim>\<open>disconnect\<close> of a websocket that is not in
  \<^verbatim>\<open>active_connections\<close> returns without an exception, removes nothing and leaves the
  manager as it was. Any \<^verbatim>\<open>disconnect\<close> returns without an exception and leaves the other
  connections, and their order, as they were; and where every websocket is registered once,
  a second \<^verbatim>\<open>disconnect\<close> of the same websocket is such a call that changes nothing.
\<close>

theorem disconnect_idempotent:
  "(websocket \<notin> set (active_connections m) \<longrightarrow> disconnect m websocket = Inr (m, []))
   \<and> (\<exists>m' evs. disconnect m websocket = Inr (m', evs)
         \<and> filter (\<lambda>c. c \<noteq> websocket) (active_connections m')
             = filter (\<lambda>c. c \<noteq> websocket) (active_connections m)
         \<and> (distinct (active_connections m) \<longrightarrow> disconnect m' websocket = Inr (m', [])))"
proof (cases "websocket \<in> set (active_connections m)")
  case False
  then show ?thesis by (simp add: disconnect_absent)
next
  case True
  let ?m' = "m\<lparr>active_connections := remove1 websocket (active_connections m)\<rparr>"
  have "filter (\<lambda>c. c \<noteq> websocket) (active_connections ?m')
          = filter (\<lambda>c. c \<noteq> websocket) (active_connections m)"
    by (simp add: filter_remove1 remove1_idem)
  moreover have "distinct (active_connections m) \<longrightarrow> disconnect ?m' websocket = Inr (?m', [])"
    by (simp add: disconnect_absent)
  ultimately show ?thesis
    using True disconnect_present [OF True] by simp
qed

theorem disconnect_idempotent_witness:
  "(5::nat) \<notin> set (active_connections \<lparr>active_connections = [1, 2, 3]\<rparr>)
   \<and> disconnect \<lparr>active_connections = [1, 2, 3]\<rparr> 5 = Inr (\<lparr>active_connections = [1, 2, 3]\<rparr>, [])
   \<and> distinct (active_connections \<lparr>active_connections = [1, 2, 3]\<rparr>)
   \<and> disconnect \<lparr>active_connections = [1, 2, 3]\<rparr> 2
       = Inr (\<lparr>active_connections = [1, 3]\<rparr>, [Remove 2])
   \<and> disconnect \<lparr>active_connections = [1, 3]\<rparr> 2 = Inr (\<lparr>active_connections = [1, 3]\<rparr>, [])"
  using disconnect_idempotent [of 5 "\<lparr>active_connections = [1, 2, 3]\<rparr>"]
    disconnect_idempotent [of 2 "\<lparr>active_connections = [1, 2, 3]\<rparr>"]
  by (simp add: disconnect_def list_remove_def)




section \<open>Submissions\<close>

text \<open>The classifier fails when either call on the model raises or no probability comes back.\<close>

lemma ml_prediction_fails_iff:
  "(\<exists>x. ml_prediction e msg = Inl x) \<longleftrightarrow>
     (\<exists>x. predict_proba e msg = Inl x) \<or> (\<exists>x. predict e msg = Inl x)
       \<or> predict_proba e msg = Inr []"
  by (auto simp: ml_prediction_def py_max_def split: sum.splits list.splits)

lemma ml_prediction_r: "ml_prediction (e\<lparr>r := client\<rparr>) msg = ml_prediction e msg"
  by (simp add: ml_prediction_def cong: sum.case_cong)

lemma py_round_93: "py_round (93 / 100) 2 = 93 / 100"
  by code_simp

lemma py_round_937: "py_round (937 / 1000) 2 = 47 / 50"
  by code_simp

lemma new_data_keys:
  "new_data e msg prediction confidence n =
     [(''id'', JInt n), (''message'', JStr msg), (''priority'', JStr prediction),
      (''confidence'', JFloat (py_round confidence 2)),
      (''source'', JStr (choice (random_choice e) services)),
      (''timestamp'', JStr (utcnow e))]"
  by (simp add: response_data_def Incident_def)

text \<open>A submission that does not succeed raises one of the handler's two HTTP errors.\<close>

lemma predict_log_failure_cases:
  assumes "fst (predict_log e msg w) = Inl f"
  shows "f = HTTPException 500 ''Prediction failed'' \<or> f = HTTPException 500 ''Database error''"
proof (cases "ml_prediction e msg")
  case (Inl x)
  with assms show ?thesis by (simp add: predict_log_prediction_failed)
next
  case (Inr pc)
  obtain p c where pc: "pc = (p, c)" by (cases pc)
  show ?thesis
  proof (cases "session e")
    case CommitRaises
    with Inr pc assms show ?thesis by (simp add: predict_log_commit_raises)
  next
    case RefreshRaises
    with Inr pc assms show ?thesis by (simp add: predict_log_refresh_raises)
  next
    case Committed
    obtain m sent where "broadcast_live (send_ok e) (other_tasks e) (manager w)
        (json_dumps e (JObj (new_data e msg p c (id_seq (db w))))) = Inr (m, sent)"
      using broadcast_live_returns by blast
    with Committed Inr pc assms show ?thesis by (simp add: predict_log_committed)
  qed
qed

text \<open>
  C2. When the classifier fails, the handler raises HTTPException 500 "Prediction failed"
  at once and nothing else has happened: the trace has no new call (no \<^verbatim>\<open>db.add\<close>, no
  \<^verbatim>\<open>r.set\<close>, no \<^verbatim>\<open>send_text\<close>) and the table, the cache slot and the manager are as
  they were.
\<close>

theorem classifier_failure_aborts:
  assumes "ml_prediction e msg = Inl x"
  shows "fst (predict_log e msg w) = Inl (HTTPException 500 ''Prediction failed'')
     \<and> snd (predict_log e msg w) = w
     \<and> trace (snd (predict_log e msg w)) = trace w
     \<and> db (snd (predict_log e msg w)) = db w
     \<and> latest_incident (snd (predict_log e msg w)) = latest_incident w
     \<and> manager (snd (predict_log e msg w)) = manager w"
  using assms by (simp add: predict_log_prediction_failed)

theorem classifier_failure_aborts_witness:
  "ml_prediction
      \<lparr>predict_proba = (\<lambda>t. Inl (Raised ''not fitted'')), predict = (\<lambda>t. Inr ''high''),
       random_choice = 2, utcnow = ''2024-01-01 00:00:00'', session = Committed, r = RedisUp,
       json_dumps = (\<lambda>j. ''{}''), send_ok = (\<lambda>c. True),
       other_tasks = []\<rparr> ''disk full''
     = Inl (Raised ''not fitted'')
   \<and> predict_log
      \<lparr>predict_proba = (\<lambda>t. Inl (Raised ''not fitted'')), predict = (\<lambda>t. Inr ''high''),
       random_choice = 2, utcnow = ''2024-01-01 00:00:00'', session = Committed, r = RedisUp,
       json_dumps = (\<lambda>j. ''{}''), send_ok = (\<lambda>c. True),
       other_tasks = []\<rparr> ''disk full''
      \<lparr>db = \<lparr>rows = [], id_seq = 1\<rparr>, latest_incident = None,
       manager = \<lparr>active_connections = [1, 2]\<rparr>, trace = []\<rparr>
     = (Inl (HTTPException 500 ''Prediction failed''),
        \<lparr>db = \<lparr>rows = [], id_seq = 1\<rparr>, latest_incident = None,
         manager = \<lparr>active_connections = [1, 2]\<rparr>, trace = []\<rparr>)"
  using classifier_failure_aborts
    [of "\<lparr>predict_proba = (\<lambda>t. Inl (Raised ''not fitted'')), predict = (\<lambda>t. Inr ''high''),
       random_choice = 2, utcnow = ''2024-01-01 00:00:00'', session = Committed, r = RedisUp,
       json_dumps = (\<lambda>j. ''{}''), send_ok = (\<lambda>c. True),
       other_tasks = []\<rparr>" "''disk full''" "Raised ''not fitted''"
       "\<lparr>db = \<lparr>rows = [], id_seq = 1\<rparr>, latest_incident = None,
       manager = \<lparr>active_connections = [1, 2]\<rparr>, trace = []\<rparr>"]
  by (simp add: ml_prediction_def prod_eq_iff)

text \<open>
  C1. When the message was classified and the commit of the insert raises, the handler
  raises HTTPException 500 "Database error"; the only new calls are those on the session,
  ending in the rollback and the close, so the cache slot is not written and no text is
  sent; the table is unchanged, and so is what \<^verbatim>\<open>get_logs\<close> returns.
\<close>

theorem store_failure_aborts:
  assumes "ml_prediction e msg = Inr (prediction, confidence)" and "session e = CommitRaises"
  shows "fst (predict_log e msg w) = Inl (HTTPException 500 ''Database error'')
     \<and> trace (snd (predict_log e msg w)) = trace w @ [DbAdd, DbCommit, DbRollback, DbClose]
     \<and> latest_incident (snd (predict_log e msg w)) = latest_incident w
     \<and> manager (snd (predict_log e msg w)) = manager w
     \<and> db (snd (predict_log e msg w)) = db w
     \<and> get_logs query_ok (db (snd (predict_log e msg w))) = get_logs query_ok (db w)"
  using assms by (simp add: predict_log_commit_raises)

theorem store_failure_aborts_witness:
  "ml_prediction
      \<lparr>predict_proba = (\<lambda>t. Inr [7 / 100, 93 / 100]), predict = (\<lambda>t. Inr ''high''),
       random_choice = 2, utcnow = ''2024-01-01 00:00:00'', session = CommitRaises, r = RedisUp,
       json_dumps = (\<lambda>j. ''{}''), send_ok = (\<lambda>c. True),
       other_tasks = []\<rparr> ''disk full''
     = Inr (''high'', 93 / 100)
   \<and> predict_log
      \<lparr>predict_proba = (\<lambda>t. Inr [7 / 100, 93 / 100]), predict = (\<lambda>t. Inr ''high''),
       random_choice = 2, utcnow = ''2024-01-01 00:00:00'', session = CommitRaises, r = RedisUp,
       json_dumps = (\<lambda>j. ''{}''), send_ok = (\<lambda>c. True),
       other_tasks = []\<rparr> ''disk full''
      \<lparr>db = \<lparr>rows = [], id_seq = 1\<rparr>, latest_incident = None,
       manager = \<lparr>active_connections = [1, 2]\<rparr>, trace = []\<rparr>
     = (Inl (HTTPException 500 ''Database error''),
        \<lparr>db = \<lparr>rows = [], id_seq = 1\<rparr>, latest_incident = None,
         manager = \<lparr>active_connections = [1, 2]\<rparr>,
         trace = [DbAdd, DbCommit, DbRollback, DbClose]\<rparr>)"
  using store_failure_aborts
    [of "\<lparr>predict_proba = (\<lambda>t. Inr [7 / 100, 93 / 100]), predict = (\<lambda>t. Inr ''high''),
       random_choice = 2, utcnow = ''2024-01-01 00:00:00'', session = CommitRaises, r = RedisUp,
       json_dumps = (\<lambda>j. ''{}''), send_ok = (\<lambda>c. True),
       other_tasks = []\<rparr>" "''disk full''" "''high''" "93 / 100"
       "\<lparr>db = \<lparr>rows = [], id_seq = 1\<rparr>, latest_incident = None,
       manager = \<lparr>active_connections = [1, 2]\<rparr>, trace = []\<rparr>" True]
  by (simp add: ml_prediction_def py_max_def prod_eq_iff)

text \<open>
  C9. For the same message, a submission whose classifier fails and a submission that was
  classified but whose session fails raise different errors: "Prediction failed" and
  "Database error". Both are HTTPException with status 500; they differ in the detail.
\<close>

theorem fatal_failures_distinct:
  assumes "ml_prediction e1 msg = Inl x"
    and "ml_prediction e2 msg = Inr (prediction, confidence)" and "session e2 \<noteq> Committed"
  shows "fst (predict_log e1 msg w1) = Inl (HTTPException 500 ''Prediction failed'')
     \<and> fst (predict_log e2 msg w2) = Inl (HTTPException 500 ''Database error'')
     \<and> fst (predict_log e1 msg w1) \<noteq> fst (predict_log e2 msg w2)"
proof -
  have 1: "fst (predict_log e1 msg w1) = Inl (HTTPException 500 ''Prediction failed'')"
    using assms(1) by (simp add: predict_log_prediction_failed)
  have 2: "fst (predict_log e2 msg w2) = Inl (HTTPException 500 ''Database error'')"
    using assms(2,3)
    by (cases "session e2") (simp_all add: predict_log_commit_raises predict_log_refresh_raises)
  show ?thesis unfolding 1 2 by simp
qed

theorem fatal_failures_distinct_witness:
  "ml_prediction
      \<lparr>predict_proba = (\<lambda>t. Inr []), predict = (\<lambda>t. Inr ''high''),
       random_choice = 2, utcnow = ''2024-01-01 00:00:00'', session = Committed, r = RedisUp,
       json_dumps = (\<lambda>j. ''{}''), send_ok = (\<lambda>c. True),
       other_tasks = []\<rparr> ''disk full'' = Inl ValueError
   \<and> ml_prediction
      \<lparr>predict_proba = (\<lambda>t. Inr [7 / 100, 93 / 100]), predict = (\<lambda>t. Inr ''high''),
       random_choice = 2, utcnow = ''2024-01-01 00:00:00'', session = CommitRaises, r = RedisUp,
       json_dumps = (\<lambda>j. ''{}''), send_ok = (\<lambda>c. True),
       other_tasks = []\<rparr> ''disk full''
     = Inr (''high'', 93 / 100)
   \<and> session
      \<lparr>predict_proba = (\<lambda>t. Inr [7 / 100, 93 / 100]), predict = (\<lambda>t. Inr ''high''),
       random_choice = 2, utcnow = ''2024-01-01 00:00:00'', session = CommitRaises, r = RedisUp,
       json_dumps = (\<lambda>j. ''{}''), send_ok = (\<lambda>c. True),
       other_tasks = []\<rparr> \<noteq> Committed
   \<and> fst (predict_log
      \<lparr>predict_proba = (\<lambda>t. Inr []), predict = (\<lambda>t. Inr ''high''),
       random_choice = 2, utcnow = ''2024-01-01 00:00:00'', session = Committed, r = RedisUp,
       json_dumps = (\<lambda>j. ''{}''), send_ok = (\<lambda>c. True),
       other_tasks = []\<rparr> ''disk full''
      \<lparr>db = \<lparr>rows = [], id_seq = 1\<rparr>, latest_incident = None,
       manager = \<lparr>active_connections = [1, 2]\<rparr>, trace = []\<rparr>)
     = Inl (HTTPException 500 ''Prediction failed'')
   \<and> fst (predict_log
      \<lparr>predict_proba = (\<lambda>t. Inr [7 / 100, 93 / 100]), predict = (\<lambda>t. Inr ''high''),
       random_choice = 2, utcnow = ''2024-01-01 00:00:00'', session = CommitRaises, r = RedisUp,
       json_dumps = (\<lambda>j. ''{}''), send_ok = (\<lambda>c. True),
       other_tasks = []\<rparr> ''disk full''
      \<lparr>db = \<lparr>rows = [], id_seq = 1\<rparr>, latest_incident = None,
       manager = \<lparr>active_connections = [1, 2]\<rparr>, trace = []\<rparr>)
     = Inl (HTTPException 500 ''Database error'')"
  using fatal_failures_distinct
    [of "\<lparr>predict_proba = (\<lambda>t. Inr []), predict = (\<lambda>t. Inr ''high''),
       random_choice = 2, utcnow = ''2024-01-01 00:00:00'', session = Committed, r = RedisUp,
       json_dumps = (\<lambda>j. ''{}''), send_ok = (\<lambda>c. True),
       other_tasks = []\<rparr>" "''disk full''" ValueError
       "\<lparr>predict_proba = (\<lambda>t. Inr [7 / 100, 93 / 100]), predict = (\<lambda>t. Inr ''high''),
       random_choice = 2, utcnow = ''2024-01-01 00:00:00'', session = CommitRaises, r = RedisUp,
       json_dumps = (\<lambda>j. ''{}''), send_ok = (\<lambda>c. True),
       other_tasks = []\<rparr>" "''high''" "93 / 100"
       "\<lparr>db = \<lparr>rows = [], id_seq = 1\<rparr>, latest_incident = None,
       manager = \<lparr>active_connections = [1, 2]\<rparr>, trace = []\<rparr>"
       "\<lparr>db = \<lparr>rows = [], id_seq = 1\<rparr>, latest_incident = None,
       manager = \<lparr>active_connections = [1, 2]\<rparr>, trace = []\<rparr>"]
  by (simp add: ml_prediction_def py_max_def)

text \<open>
  C6. When the row was committed and \<^verbatim>\<open>r.set\<close> raises, the handler still answers with
  status "success", whatever other tasks do during the broadcast; the failed \<^verbatim>\<open>r.set\<close> is
  followed by the calls of the broadcast; the cache slot keeps its old content; and the
  answer is the one given when the cache write succeeds or when there is no Redis handle.
  When no other task touches the manager during the broadcast, its calls are one
  \<^verbatim>\<open>send_text\<close> per registered connection, then the removals.
\<close>

theorem cache_failure_swallowed:
  assumes "ml_prediction e msg = Inr (prediction, confidence)" and "session e = Committed"
    and "r e = RedisDown"
  shows "\<exists>data w' m sent. predict_log e msg w =
         (Inr (JObj [(''status'', JStr ''success''), (''data'', JObj data)]), w')
     \<and> broadcast_live (send_ok e) (other_tasks e) (manager w) (json_dumps e (JObj data))
         = Inr (m, sent)
     \<and> trace w' = trace w @ [DbAdd, DbCommit, DbRefresh, DbClose]
          @ [RedisSet (json_dumps e (JObj data)) False] @ sent
     \<and> manager w' = m
     \<and> latest_incident w' = latest_incident w
     \<and> fst (predict_log (e\<lparr>r := RedisUp\<rparr>) msg w) = fst (predict_log e msg w)
     \<and> fst (predict_log (e\<lparr>r := NoRedis\<rparr>) msg w) = fst (predict_log e msg w)
     \<and> (other_tasks e = [] \<longrightarrow>
          trace w' = trace w @ [DbAdd, DbCommit, DbRefresh, DbClose]
            @ [RedisSet (json_dumps e (JObj data)) False]
            @ map (\<lambda>c. SendText c (json_dumps e (JObj data)) (send_ok e c))
                (active_connections (manager w))
            @ map Remove (filter (\<lambda>c. \<not> send_ok e c) (active_connections (manager w))))"
proof -
  let ?data = "new_data e msg prediction confidence (id_seq (db w))"
  obtain m sent where bl: "broadcast_live (send_ok e) (other_tasks e) (manager w)
      (json_dumps e (JObj ?data)) = Inr (m, sent)"
    using broadcast_live_returns by blast
  have up: "ml_prediction (e\<lparr>r := RedisUp\<rparr>) msg = Inr (prediction, confidence)"
    and no: "ml_prediction (e\<lparr>r := NoRedis\<rparr>) msg = Inr (prediction, confidence)"
    using assms(1) by (simp_all add: ml_prediction_r)
  have bl_up: "broadcast_live (send_ok (e\<lparr>r := RedisUp\<rparr>)) (other_tasks (e\<lparr>r := RedisUp\<rparr>))
      (manager w) (json_dumps (e\<lparr>r := RedisUp\<rparr>)
        (JObj (new_data (e\<lparr>r := RedisUp\<rparr>) msg prediction confidence (id_seq (db w)))))
      = Inr (m, sent)"
    and bl_no: "broadcast_live (send_ok (e\<lparr>r := NoRedis\<rparr>)) (other_tasks (e\<lparr>r := NoRedis\<rparr>))
      (manager w) (json_dumps (e\<lparr>r := NoRedis\<rparr>)
        (JObj (new_data (e\<lparr>r := NoRedis\<rparr>) msg prediction confidence (id_seq (db w)))))
      = Inr (m, sent)"
    using bl by simp_all
  have alone: "other_tasks e = [] \<longrightarrow>
      sent = map (\<lambda>c. SendText c (json_dumps e (JObj ?data)) (send_ok e c))
                (active_connections (manager w))
            @ map Remove (filter (\<lambda>c. \<not> send_ok e c) (active_connections (manager w)))"
    using bl by (auto simp: broadcast_live_alone)
  show ?thesis
    using assms(3) bl alone
    by (simp add: predict_log_committed [OF assms(1,2) bl] predict_log_committed [OF up _ bl_up]
        predict_log_committed [OF no _ bl_no] assms(2) cache_latest_def)
qed

theorem cache_failure_swallowed_witness:
  "ml_prediction
      \<lparr>predict_proba = (\<lambda>t. Inr [7 / 100, 93 / 100]), predict = (\<lambda>t. Inr ''high''),
       random_choice = 2, utcnow = ''2024-01-01 00:00:00'', session = Committed, r = RedisDown,
       json_dumps = (\<lambda>j. case j of JObj kvs \<Rightarrow> concat (map fst kvs) | _ \<Rightarrow> []),
       send_ok = (\<lambda>c. c \<noteq> 2), other_tasks = []\<rparr> ''Database connection timeout'' = Inr (''high'', 93 / 100)
   \<and> session
      \<lparr>predict_proba = (\<lambda>t. Inr [7 / 100, 93 / 100]), predict = (\<lambda>t. Inr ''high''),
       random_choice = 2, utcnow = ''2024-01-01 00:00:00'', session = Committed, r = RedisDown,
       json_dumps = (\<lambda>j. case j of JObj kvs \<Rightarrow> concat (map fst kvs) | _ \<Rightarrow> []),
       send_ok = (\<lambda>c. c \<noteq> 2), other_tasks = []\<rparr> = Committed
   \<and> r \<lparr>predict_proba = (\<lambda>t. Inr [7 / 100, 93 / 100]), predict = (\<lambda>t. Inr ''high''),
       random_choice = 2, utcnow = ''2024-01-01 00:00:00'', session = Committed, r = RedisDown,
       json_dumps = (\<lambda>j. case j of JObj kvs \<Rightarrow> concat (map fst kvs) | _ \<Rightarrow> []),
       send_ok = (\<lambda>c. c \<noteq> 2), other_tasks = []\<rparr> = RedisDown
   \<and> other_tasks
      \<lparr>predict_proba = (\<lambda>t. Inr [7 / 100, 93 / 100]), predict = (\<lambda>t. Inr ''high''),
       random_choice = 2, utcnow = ''2024-01-01 00:00:00'', session = Committed, r = RedisDown,
       json_dumps = (\<lambda>j. case j of JObj kvs \<Rightarrow> concat (map fst kvs) | _ \<Rightarrow> []),
       send_ok = (\<lambda>c. c \<noteq> 2), other_tasks = []\<rparr> = []
   \<and> predict_log
      \<lparr>predict_proba = (\<lambda>t. Inr [7 / 100, 93 / 100]), predict = (\<lambda>t. Inr ''high''),
       random_choice = 2, utcnow = ''2024-01-01 00:00:00'', session = Committed, r = RedisDown,
       json_dumps = (\<lambda>j. case j of JObj kvs \<Rightarrow> concat (map fst kvs) | _ \<Rightarrow> []),
       send_ok = (\<lambda>c. c \<noteq> 2), other_tasks = []\<rparr> ''Database connection timeout''
      \<lparr>db = \<lparr>rows = [], id_seq = 1\<rparr>, latest_incident = None,
       manager = \<lparr>active_connections = [1, 2, 3]\<rparr>, trace = []\<rparr>
     = (Inr (JObj [(''status'', JStr ''success''), (''data'', JObj
           [(''id'', JInt 1), (''message'', JStr ''Database connection timeout''),
            (''priority'', JStr ''high''), (''confidence'', JFloat (93 / 100)),
            (''source'', JStr ''Database-Cluster''),
            (''timestamp'', JStr ''2024-01-01 00:00:00'')])]),
        \<lparr>db = \<lparr>rows = [\<lparr>incident_id = 1, message = ''Database connection timeout'',
            priority = ''high'', source_service = ''Database-Cluster'',
            confidence_score = 93 / 100, resolved = 0, timestamp = ''2024-01-01 00:00:00''\<rparr>], id_seq = 2\<rparr>,
         latest_incident = None,
         manager = \<lparr>active_connections = [1, 3]\<rparr>,
         trace = [DbAdd, DbCommit, DbRefresh, DbClose, RedisSet ''idmessagepriorityconfidencesourcetimestamp'' False,
                  SendText 1 ''idmessagepriorityconfidencesourcetimestamp'' True, SendText 2 ''idmessagepriorityconfidencesourcetimestamp'' False,
                  SendText 3 ''idmessagepriorityconfidencesourcetimestamp'' True, Remove 2]\<rparr>)"
  using cache_failure_swallowed
    [of "\<lparr>predict_proba = (\<lambda>t. Inr [7 / 100, 93 / 100]), predict = (\<lambda>t. Inr ''high''),
       random_choice = 2, utcnow = ''2024-01-01 00:00:00'', session = Committed, r = RedisDown,
       json_dumps = (\<lambda>j. case j of JObj kvs \<Rightarrow> concat (map fst kvs) | _ \<Rightarrow> []),
       send_ok = (\<lambda>c. c \<noteq> 2), other_tasks = []\<rparr>" "''Database connection timeout''" "''high''" "93 / 100"
        "\<lparr>db = \<lparr>rows = [], id_seq = 1\<rparr>, latest_incident = None,
       manager = \<lparr>active_connections = [1, 2, 3]\<rparr>, trace = []\<rparr>"]
  by (simp add: ml_prediction_def py_max_def predict_log_def add_commit_refresh_def response_data_def Incident_def insert_row_def cache_latest_def broadcast_live_alone choice_def services_def Let_def primary_key_def py_round_93)




text \<open>
  C10. The confidence is rounded to two decimals in the dictionary the handler answers
  with, caches and sends: every text of its broadcast is that dictionary serialized, and
  with no other task touching the manager it goes to every registered connection. The row
  keeps the confidence as the classifier gave it, and \<^verbatim>\<open>get_logs\<close> returns that value for
  the new row, which it lists first. The two agree exactly when rounding leaves the
  confidence unchanged, which is not always so.
\<close>

theorem confidence_rounded_only_in_response:
  assumes "ml_prediction e msg = Inr (prediction, confidence)" and "session e = Committed"
    and "primary_key (db w)"
  shows "\<exists>data w' newest older.
       predict_log e msg w =
         (Inr (JObj [(''status'', JStr ''success''), (''data'', JObj data)]), w')
     \<and> map_of data ''confidence'' = Some (JFloat (py_round confidence 2))
     \<and> (r e = RedisUp \<longrightarrow> latest_incident w' = Some (json_dumps e (JObj data)))
     \<and> (\<forall>c p b. SendText c p b \<in> set (drop (length (trace w)) (trace w'))
           \<longrightarrow> p = json_dumps e (JObj data))
     \<and> (other_tasks e = [] \<longrightarrow>
          (\<forall>c\<in>set (active_connections (manager w)).
             SendText c (json_dumps e (JObj data)) (send_ok e c)
               \<in> set (drop (length (trace w)) (trace w'))))
     \<and> confidence_score (last (rows (db w'))) = confidence
     \<and> get_logs True (db w') = Inr (newest # older)
     \<and> map_of newest ''id'' = map_of data ''id''
     \<and> map_of newest ''confidence'' = Some (JFloat confidence)
     \<and> (map_of newest ''confidence'' = map_of data ''confidence''
          \<longleftrightarrow> py_round confidence 2 = confidence)
     \<and> (\<exists>c. py_round c 2 \<noteq> c)"
proof -
  let ?row = "new_row e msg prediction confidence (id_seq (db w))"
  let ?data = "new_data e msg prediction confidence (id_seq (db w))"
  let ?w' = "snd (predict_log e msg w)"
  let ?newest = "log_dict ?row"
  let ?older = "map log_dict (take 49 (query_logs (db w)))"
  obtain m sent where bl: "broadcast_live (send_ok e) (other_tasks e) (manager w)
      (json_dumps e (JObj ?data)) = Inr (m, sent)"
    using broadcast_live_returns by blast
  note run = predict_log_committed [OF assms(1,2) bl]
  have texts: "\<forall>c p b. SendText c p b \<in> set sent \<longrightarrow> p = json_dumps e (JObj ?data)"
    using bl by (rule broadcast_live_texts)
  have q: "query_logs (insert_row (db w) (new_row e msg prediction confidence))
      = ?row # take 49 (query_logs (db w))"
    using assms(3) by (rule query_logs_insert_row) (rule incident_id_Incident)
  have 1: "predict_log e msg w =
      (Inr (JObj [(''status'', JStr ''success''), (''data'', JObj ?data)]), ?w')"
    by (simp add: run)
  have 2: "map_of ?data ''confidence'' = Some (JFloat (py_round confidence 2))"
    by (simp add: new_data_keys)
  have 3: "r e = RedisUp \<longrightarrow> latest_incident ?w' = Some (json_dumps e (JObj ?data))"
    by (simp add: run cache_latest_def)
  have 4: "\<forall>c p b. SendText c p b \<in> set (drop (length (trace w)) (trace ?w'))
      \<longrightarrow> p = json_dumps e (JObj ?data)"
    using texts by (auto simp: run cache_latest_def split: redis_client.splits)
  have 5: "other_tasks e = [] \<longrightarrow>
      (\<forall>c\<in>set (active_connections (manager w)).
        SendText c (json_dumps e (JObj ?data)) (send_ok e c)
          \<in> set (drop (length (trace w)) (trace ?w')))"
    using bl by (auto simp: run broadcast_live_alone)
  have 6: "confidence_score (last (rows (db ?w'))) = confidence"
    by (simp add: run insert_row_def Incident_def)
  have 7: "get_logs True (db ?w') = Inr (?newest # ?older)"
    by (simp add: run get_logs_def q)
  have 8: "map_of ?newest ''id'' = map_of ?data ''id''"
    by (simp add: response_data_def log_dict_def Incident_def)
  have 9: "map_of ?newest ''confidence'' = Some (JFloat confidence)"
    by (simp add: log_dict_def Incident_def)
  have 10: "map_of ?newest ''confidence'' = map_of ?data ''confidence''
      \<longleftrightarrow> py_round confidence 2 = confidence"
    unfolding 2 9 by auto
  have "py_round (937 / 1000) 2 \<noteq> 937 / 1000" by (simp add: py_round_937)
  then have 11: "\<exists>c. py_round c 2 \<noteq> c" ..
  from 1 2 3 4 5 6 7 8 9 10 11 show ?thesis by blast
qed

theorem confidence_rounded_only_in_response_witness:
  "ml_prediction
      \<lparr>predict_proba = (\<lambda>t. Inr [63 / 1000, 937 / 1000]), predict = (\<lambda>t. Inr ''high''),
       random_choice = 2, utcnow = ''2024-01-01 00:00:00'', session = Committed, r = RedisUp,
       json_dumps = (\<lambda>j. case j of JObj kvs \<Rightarrow> concat (map fst kvs) | _ \<Rightarrow> []),
       send_ok = (\<lambda>c. c \<noteq> 2),
       other_tasks = []\<rparr> ''Database connection timeout'' = Inr (''high'', 937 / 1000)
   \<and> session
      \<lparr>predict_proba = (\<lambda>t. Inr [63 / 1000, 937 / 1000]), predict = (\<lambda>t. Inr ''high''),
       random_choice = 2, utcnow = ''2024-01-01 00:00:00'', session = Committed, r = RedisUp,
       json_dumps = (\<lambda>j. case j of JObj kvs \<Rightarrow> concat (map fst kvs) | _ \<Rightarrow> []),
       send_ok = (\<lambda>c. c \<noteq> 2),
       other_tasks = []\<rparr> = Committed
   \<and> primary_key (db \<lparr>db = \<lparr>rows = [], id_seq = 1\<rparr>, latest_incident = None,
       manager = \<lparr>active_connections = [1, 2, 3]\<rparr>, trace = []\<rparr>)
   \<and> fst (predict_log
      \<lparr>predict_proba = (\<lambda>t. Inr [63 / 1000, 937 / 1000]), predict = (\<lambda>t. Inr ''high''),
       random_choice = 2, utcnow = ''2024-01-01 00:00:00'', session = Committed, r = RedisUp,
       json_dumps = (\<lambda>j. case j of JObj kvs \<Rightarrow> concat (map fst kvs) | _ \<Rightarrow> []),
       send_ok = (\<lambda>c. c \<noteq> 2),
       other_tasks = []\<rparr> ''Database connection timeout''
      \<lparr>db = \<lparr>rows = [], id_seq = 1\<rparr>, latest_incident = None,
       manager = \<lparr>active_connections = [1, 2, 3]\<rparr>, trace = []\<rparr>)
     = Inr (JObj [(''status'', JStr ''success''), (''data'', JObj
           [(''id'', JInt 1), (''message'', JStr ''Database connection timeout''),
            (''priority'', JStr ''high''), (''confidence'', JFloat (47 / 50)),
            (''source'', JStr ''Database-Cluster''),
            (''timestamp'', JStr ''2024-01-01 00:00:00'')])])
   \<and> get_logs True (db (snd (predict_log
      \<lparr>predict_proba = (\<lambda>t. Inr [63 / 1000, 937 / 1000]), predict = (\<lambda>t. Inr ''high''),
       random_choice = 2, utcnow = ''2024-01-01 00:00:00'', session = Committed, r = RedisUp,
       json_dumps = (\<lambda>j. case j of JObj kvs \<Rightarrow> concat (map fst kvs) | _ \<Rightarrow> []),
       send_ok = (\<lambda>c. c \<noteq> 2),
       other_tasks = []\<rparr> ''Database connection timeout''
      \<lparr>db = \<lparr>rows = [], id_seq = 1\<rparr>, latest_incident = None,
       manager = \<lparr>active_connections = [1, 2, 3]\<rparr>, trace = []\<rparr>)))
     = Inr [[(''id'', JInt 1), (''message'', JStr ''Database connection timeout''),
             (''priority'', JStr ''high''), (''timestamp'', JStr ''2024-01-01 00:00:00''),
             (''source'', JStr ''Database-Cluster''), (''confidence'', JFloat (937 / 1000))]]"
  using confidence_rounded_only_in_response
    [of "\<lparr>predict_proba = (\<lambda>t. Inr [63 / 1000, 937 / 1000]), predict = (\<lambda>t. Inr ''high''),
       random_choice = 2, utcnow = ''2024-01-01 00:00:00'', session = Committed, r = RedisUp,
       json_dumps = (\<lambda>j. case j of JObj kvs \<Rightarrow> concat (map fst kvs) | _ \<Rightarrow> []),
       send_ok = (\<lambda>c. c \<noteq> 2),
       other_tasks = []\<rparr>" "''Database connection timeout''" "''high''" "937 / 1000"
        "\<lparr>db = \<lparr>rows = [], id_seq = 1\<rparr>, latest_incident = None,
       manager = \<lparr>active_connections = [1, 2, 3]\<rparr>, trace = []\<rparr>"]
  by (simp add: ml_prediction_def py_max_def predict_log_def add_commit_refresh_def response_data_def Incident_def insert_row_def cache_latest_def broadcast_live_alone choice_def services_def Let_def primary_key_def py_round_937 get_logs_def query_logs_def log_dict_def)

section \<open>Reading the recent incidents\<close>




section \<open>Broadcasting while other tasks run\<close>

lemma run_calls_append: "run_calls m (xs @ ys) = run_calls (run_calls m xs) ys"
  by (simp add: run_calls_def)

text \<open>
  Whatever the other tasks do, the first loop itself does not change the list: when it
  ends, the list is the one the calls of the other tasks made, those of the steps the loop
  took.
\<close>

lemma send_each_live_list:
  "\<exists>n\<le>length schedule.
     fst (send_each_live ok msg schedule i m disconnected evs)
       = run_calls m (concat (take n schedule))"
proof (induction schedule arbitrary: i m disconnected evs)
  case Nil
  show ?case by (simp add: send_each_live_alone run_calls_def)
next
  case (Cons calls rest)
  show ?case
  proof (cases "i < length (active_connections m)")
    case False
    then have "fst (send_each_live ok msg (calls # rest) i m disconnected evs) = m"
      by (subst send_each_live.simps) simp
    then have "fst (send_each_live ok msg (calls # rest) i m disconnected evs)
        = run_calls m (concat (take 0 (calls # rest)))"
      by (simp add: run_calls_def)
    then show ?thesis by blast
  next
    case True
    let ?c = "active_connections m ! i"
    let ?d = "if ok ?c then disconnected else disconnected @ [?c]"
    let ?evs = "evs @ [SendText ?c msg (ok ?c)]"
    have step: "send_each_live ok msg (calls # rest) i m disconnected evs
        = send_each_live ok msg rest (Suc i) (run_calls m calls) ?d ?evs"
      using True by (subst send_each_live.simps) (simp add: Let_def)
    from Cons.IH [of "Suc i" "run_calls m calls" ?d ?evs]
    obtain n where n: "n \<le> length rest"
      and eq: "fst (send_each_live ok msg rest (Suc i) (run_calls m calls) ?d ?evs)
          = run_calls (run_calls m calls) (concat (take n rest))"
      by blast
    have "fst (send_each_live ok msg (calls # rest) i m disconnected evs)
        = run_calls m (concat (take (Suc n) (calls # rest)))"
      by (simp add: step eq run_calls_append)
    moreover have "Suc n \<le> length (calls # rest)" using n by simp
    ultimately show ?thesis by blast
  qed
qed

text \<open>
  C4, as stated, does not hold: the loop walks the list object, not a copy of it. A
  websocket that connects while the loop awaits its first send is appended to the list and
  is sent the message in the same loop; a websocket that disconnects during that await
  shifts the list under the index, and the connection after it is passed over.
\<close>

theorem broadcast_walks_live_list_counterexample:
  "2 \<notin> set (active_connections \<lparr>active_connections = [1]\<rparr>)
   \<and> broadcast_live (\<lambda>c. True) [[Connect 2]] \<lparr>active_connections = [1]\<rparr> ''x''
       = Inr (\<lparr>active_connections = [1, 2]\<rparr>, [SendText 1 ''x'' True, SendText 2 ''x'' True])
   \<and> broadcast_live (\<lambda>c. True) [[Disconnect 1]] \<lparr>active_connections = [1, 2, 3]\<rparr> ''x''
       = Inr (\<lparr>active_connections = [2, 3]\<rparr>, [SendText 1 ''x'' True, SendText 3 ''x'' True])"
  by code_simp

text \<open>
  C4, amended. \<^verbatim>\<open>broadcast\<close> walks \<^verbatim>\<open>active_connections\<close> itself. With no other task
  touching the manager during the loop, the loop leaves the list unchanged, sends once to
  each connection registered at the start, in order, and collects those whose send
  raised; they are removed after the loop. Under any schedule of other tasks the list at
  the end of the loop is the result of their calls alone: \<^verbatim>\<open>broadcast\<close> removes nothing
  before its loop has ended.
\<close>

theorem broadcast_collects_then_removes:
  "send_each_live ok msg [] 0 m [] []
     = (m, filter (\<lambda>c. \<not> ok c) (active_connections m),
        map (\<lambda>c. SendText c msg (ok c)) (active_connections m))
   \<and> broadcast_live ok [] m msg
     = Inr (m\<lparr>active_connections := filter ok (active_connections m)\<rparr>,
            map (\<lambda>c. SendText c msg (ok c)) (active_connections m)
              @ map Remove (filter (\<lambda>c. \<not> ok c) (active_connections m)))
   \<and> (\<exists>n\<le>length schedule.
         fst (send_each_live ok msg schedule 0 m [] [])
           = run_calls m (concat (take n schedule)))"
  using send_each_live_list [of schedule ok msg 0 m "[]" "[]"]
  by (simp add: send_each_live_alone broadcast_live_alone)

theorem broadcast_collects_then_removes_witness:
  "send_each_live (\<lambda>c. c \<noteq> 1) ''x'' [] 0 \<lparr>active_connections = [1, 3]\<rparr> [] []
     = (\<lparr>active_connections = [1, 3]\<rparr>, [1], [SendText 1 ''x'' False, SendText 3 ''x'' True])
   \<and> broadcast_live (\<lambda>c. c \<noteq> 1) [] \<lparr>active_connections = [1, 3]\<rparr> ''x''
     = Inr (\<lparr>active_connections = [3]\<rparr>,
            [SendText 1 ''x'' False, SendText 3 ''x'' True, Remove 1])"
  using broadcast_collects_then_removes
    [of "\<lambda>c. c \<noteq> 1" "''x''" "\<lparr>active_connections = [1, 3]\<rparr>" "[]"]
  by simp

end
